theory Spec2Isabelle
  imports Main
begin

section \<open>JavaScript values and the \<open>Map\<close> of connections\<close>

text \<open>
  The fields of a decoded message are JavaScript values. A primitive value is compared by
  value; an object or an array is compared by identity, so it is represented by a reference
  number: two \<open>JRef\<close>s are equal exactly when they are the same object. Numbers are the
  integer-valued ones (the handlers never compute with them; they only compare them and test
  their truthiness).
\<close>

datatype jsval = JUndefined | JNull | JBool bool | JNum int | JStr string | JRef nat

text \<open>JavaScript truthiness, as tested by \<^verbatim>\<open>if (connectedAgentId)\<close>.\<close>

fun truthy :: "jsval \<Rightarrow> bool" where
  "truthy JUndefined = False"
| "truthy JNull = False"
| "truthy (JBool b) = b"
| "truthy (JNum n) = (n \<noteq> 0)"
| "truthy (JStr s) = (s \<noteq> [])"
| "truthy (JRef r) = True"

text \<open>
  A JavaScript \<open>Map\<close> keeps its entries in insertion order and holds one entry for each key.
  It is an association list: \<open>set\<close> overwrites the value of an existing key where it stands
  and appends a new key at the end, \<open>delete\<close> removes the key's entry, \<open>get\<close> gives
  \<^verbatim>\<open>undefined\<close> (here \<open>None\<close>) for a key that is not there.
\<close>

type_synonym ('k, 'v) js_map = "('k \<times> 'v) list"

fun Map_set :: "'k \<Rightarrow> 'v \<Rightarrow> ('k, 'v) js_map \<Rightarrow> ('k, 'v) js_map" where
  "Map_set k v [] = [(k, v)]"
| "Map_set k v ((k', v') # m) = (if k' = k then (k, v) # m else (k', v') # Map_set k v m)"

fun Map_get :: "('k, 'v) js_map \<Rightarrow> 'k \<Rightarrow> 'v option" where
  "Map_get [] k = None"
| "Map_get ((k', v') # m) k = (if k' = k then Some v' else Map_get m k)"

fun Map_delete :: "'k \<Rightarrow> ('k, 'v) js_map \<Rightarrow> ('k, 'v) js_map" where
  "Map_delete k [] = []"
| "Map_delete k ((k', v') # m) = (if k' = k then m else (k', v') # Map_delete k m)"


section \<open>Sockets and messages\<close>

text \<open>
  A server-side socket of the \<open>ws\<close> library is open when the \<open>connection\<close> event hands it
  over, and closed when its \<open>close\<close> event fires. What \<open>ws.send\<close> was given is recorded in
  the socket's \<open>sent\<close> list, in order. Sending on a socket that is not open delivers
  nothing: the library drops the data or throws, according to its version, and every such
  call of the two servers is the last thing its handler does to the state, inside the
  \<open>try\<close> block, so that the state is the same either way.
\<close>

datatype ready_state = OPEN | CLOSING | CLOSED

text \<open>The records that the two servers serialise with \<open>JSON.stringify\<close> and send.\<close>

datatype out_msg =
    Connected string
  | Registered jsval
  | RegisteredOnline jsval
  | Signal jsval jsval
  | ErrorReply
  | Pong

record websocket =
  readyState :: ready_state
  sent :: "out_msg list"

definition ws_send :: "out_msg \<Rightarrow> websocket \<Rightarrow> websocket" where
  "ws_send data w = (if readyState w = OPEN then w\<lparr>sent := sent w @ [data]\<rparr> else w)"

text \<open>
  The fields that the handlers read from a decoded message (\<open>type\<close> and \<open>from\<close> are
  \<open>type_field\<close> and \<open>from_field\<close> here). A field that the message does not have reads
  as \<open>JUndefined\<close>.
\<close>

record message =
  type_field :: jsval
  agentId :: jsval
  target :: jsval
  from_field :: jsval
  signal :: jsval
  targetAgentId :: jsval
  fromAgentId :: jsval

text \<open>
  An inbound frame, after \<open>JSON.parse\<close>: the parser throws a \<open>SyntaxError\<close>
  (\<open>Unparsable\<close>), or gives \<^verbatim>\<open>null\<close>, whose \<open>type\<close> cannot be read (a \<open>TypeError\<close>), or
  gives a value whose fields can be read (for a number, a string, a boolean or an array every
  field the handlers read is \<open>JUndefined\<close>).
\<close>

datatype frame = Unparsable | ParsedNull | Parsed message

text \<open>
  What the \<open>try\<close> block of a message handler can throw: the two errors above, and the
  rejection of an awaited update of the profile store (second server only).
\<close>

datatype js_error = SyntaxError | TypeError | StoreRejected

definition no_fields :: message where
  "no_fields = \<lparr>type_field = JUndefined, agentId = JUndefined, target = JUndefined,
     from_field = JUndefined, signal = JUndefined, targetAgentId = JUndefined,
     fromAgentId = JUndefined\<rparr>"

section \<open>The standalone server (\<open>server.js\<close>)\<close>

text \<open>
  \<open>Date.now().toString()\<close>: the decimal digits of the clock's milliseconds.
\<close>

definition digit_char :: "nat \<Rightarrow> char" where
  "digit_char d = char_of (48 + d)"

function digits :: "nat \<Rightarrow> string" where
  "digits n = (if n < 10 then [digit_char n] else digits (n div 10) @ [digit_char (n mod 10)])"
  by pat_completeness auto
termination
  by (relation "measure (\<lambda>n. n)") auto

declare digits.simps [simp del]

definition toString :: "int \<Rightarrow> string" where
  "toString i = (if i < 0 then CHR ''-'' # digits (nat (- i)) else digits (nat i))"

text \<open>
  One accepted connection: its socket and the \<open>clientId\<close> constant of its closure. A
  connection is named by its position in the list of accepted connections, which stands for
  the identity of the socket object (\<open>socket === ws\<close>).
\<close>

record connection =
  ws :: websocket
  clientId :: string

record server =
  clients :: "(jsval, nat) js_map"
  sockets :: "connection list"

text \<open>
  \<open>send_to c data\<close> is \<open>ws.send(data)\<close> on the socket of connection \<open>c\<close>, and \<open>ready s c\<close>
  is its \<open>readyState\<close>. The map only ever holds sockets of accepted connections
  (\<open>run_handles_accepted\<close> below); for a number that names no connection the two functions
  are the identity and \<open>CLOSED\<close>. The handlers of a connection \<open>c\<close> exist once \<open>c\<close> is
  accepted, and \<open>step\<close> runs them for accepted connections only.
\<close>

definition send_to :: "nat \<Rightarrow> out_msg \<Rightarrow> server \<Rightarrow> server" where
  "send_to c data s =
     (if c < length (sockets s)
      then s\<lparr>sockets := (sockets s)[c := (sockets s ! c)\<lparr>ws := ws_send data (ws (sockets s ! c))\<rparr>]\<rparr>
      else s)"

definition ready :: "server \<Rightarrow> nat \<Rightarrow> ready_state" where
  "ready s c = (if c < length (sockets s) then readyState (ws (sockets s ! c)) else CLOSED)"

text \<open>\<^verbatim>\<open>wss.on('connection', ...)\<close>: the body up to the registration of the handlers.\<close>

definition on_connection :: "int \<Rightarrow> server \<Rightarrow> server" where
  "on_connection now s =
     (let c = length (sockets s);
          cid = toString now;
          s1 = s\<lparr>sockets := sockets s @ [\<lparr>ws = \<lparr>readyState = OPEN, sent = []\<rparr>, clientId = cid\<rparr>]\<rparr>;
          s2 = s1\<lparr>clients := Map_set (JStr cid) c (clients s1)\<rparr>
      in send_to c (Connected cid) s2)"

text \<open>The three cases of the \<open>switch\<close> on \<open>message.type\<close>.\<close>

definition case_register :: "nat \<Rightarrow> message \<Rightarrow> server \<Rightarrow> server" where
  "case_register c message s =
     (let oldId = clientId (sockets s ! c);
          s1 = s\<lparr>clients := Map_delete (JStr oldId) (clients s)\<rparr>;
          s2 = s1\<lparr>clients := Map_set (agentId message) c (clients s1)\<rparr>
      in send_to c (Registered (agentId message)) s2)"

definition case_signal :: "nat \<Rightarrow> message \<Rightarrow> server \<Rightarrow> server" where
  "case_signal c message s =
     (case Map_get (clients s) (target message) of
        Some targetWs \<Rightarrow>
          (if ready s targetWs = OPEN
           then send_to targetWs (Signal (from_field message) (signal message)) s
           else send_to c ErrorReply s)
      | None \<Rightarrow> send_to c ErrorReply s)"

definition case_ping :: "nat \<Rightarrow> server \<Rightarrow> server" where
  "case_ping c s = send_to c Pong s"

text \<open>
  The \<open>try\<close> block of \<^verbatim>\<open>ws.on('message', ...)\<close>: the error it throws, if any, and the
  state it leaves. The \<open>catch\<close> logs the error and the handler returns.
\<close>

definition message_try :: "nat \<Rightarrow> frame \<Rightarrow> server \<Rightarrow> js_error option \<times> server" where
  "message_try c data s =
     (case data of
        Unparsable \<Rightarrow> (Some SyntaxError, s)
      | ParsedNull \<Rightarrow> (Some TypeError, s)
      | Parsed message \<Rightarrow>
          (None,
           if type_field message = JStr ''register'' then case_register c message s
           else if type_field message = JStr ''signal'' then case_signal c message s
           else if type_field message = JStr ''ping'' then case_ping c s
           else s))"

definition on_message :: "nat \<Rightarrow> frame \<Rightarrow> server \<Rightarrow> server" where
  "on_message c data s = snd (message_try c data s)"

text \<open>
  \<^verbatim>\<open>ws.on('close', ...)\<close>: the first entry of the map, in insertion order, whose socket is
  this one is deleted, and the scan stops there.
\<close>

definition on_close :: "nat \<Rightarrow> server \<Rightarrow> server" where
  "on_close c s =
     (case find (\<lambda>e. snd e = c) (clients s) of
        Some e \<Rightarrow> s\<lparr>clients := Map_delete (fst e) (clients s)\<rparr>
      | None \<Rightarrow> s)"

text \<open>
  The transport: it accepts a connection, delivers a frame of an open connection, or closes
  a connection, which sets the socket's state before the \<open>close\<close> handler runs. It emits
  nothing for a socket that is already closed.
\<close>

definition set_closed :: "nat \<Rightarrow> server \<Rightarrow> server" where
  "set_closed c s =
     s\<lparr>sockets := (sockets s)[c := (sockets s ! c)\<lparr>ws := (ws (sockets s ! c))\<lparr>readyState := CLOSED\<rparr>\<rparr>]\<rparr>"

datatype event = Connection int | Message nat frame | Close nat

fun step :: "server \<Rightarrow> event \<Rightarrow> server" where
  "step s (Connection now) = on_connection now s"
| "step s (Message c data) = (if ready s c = OPEN then on_message c data s else s)"
| "step s (Close c) = (if ready s c = CLOSED then s else on_close c (set_closed c s))"

definition run :: "event list \<Rightarrow> server" where
  "run evs = foldl step \<lparr>clients = [], sockets = []\<rparr> evs"

definition register_msg :: "jsval \<Rightarrow> message" where
  "register_msg a = no_fields\<lparr>type_field := JStr ''register'', agentId := a\<rparr>"

definition signal_msg :: "jsval \<Rightarrow> jsval \<Rightarrow> jsval \<Rightarrow> message" where
  "signal_msg tgt frm payload =
     no_fields\<lparr>type_field := JStr ''signal'', target := tgt, from_field := frm, signal := payload,
       targetAgentId := tgt, fromAgentId := frm\<rparr>"

section \<open>The server with the profile store (the second source file)\<close>

text \<open>
  The second file keeps the map \<open>activeConnections\<close> and, in the closure of each connection,
  the variable \<open>connectedAgentId\<close>, \<^verbatim>\<open>null\<close> at first. Its handlers are \<open>async\<close>: the
  \<open>register\<close> case and the \<open>close\<close> handler await an update of the profile store, an
  external service, whose outcome is a parameter here. A handler that awaits stops there and
  other handlers run before it goes on: what it still has to do is a \<open>continuation\<close>, kept in
  the list \<open>awaiting\<close> until its update settles. The message handler catches a rejected
  update; the close handler has no \<open>try\<close>, so that a rejected update there is an unhandled
  rejection, which ends the process (\<open>exited\<close>).
\<close>

datatype store_result = Resolved | Rejected

datatype continuation = AfterRegister nat jsval | AfterClose nat

record session =
  socket :: websocket
  connectedAgentId :: jsval

record app =
  activeConnections :: "(jsval, nat) js_map"
  sessions :: "session list"
  awaiting :: "continuation list"
  exited :: bool

definition app_send_to :: "nat \<Rightarrow> out_msg \<Rightarrow> app \<Rightarrow> app" where
  "app_send_to c data s =
     (if c < length (sessions s)
      then s\<lparr>sessions := (sessions s)[c := (sessions s ! c)\<lparr>socket := ws_send data (socket (sessions s ! c))\<rparr>]\<rparr>
      else s)"

definition app_ready :: "app \<Rightarrow> nat \<Rightarrow> ready_state" where
  "app_ready s c = (if c < length (sessions s) then readyState (socket (sessions s ! c)) else CLOSED)"

definition app_on_connection :: "app \<Rightarrow> app" where
  "app_on_connection s =
     s\<lparr>sessions := sessions s @ [\<lparr>socket = \<lparr>readyState = OPEN, sent = []\<rparr>, connectedAgentId = JNull\<rparr>]\<rparr>"

text \<open>
  The \<open>register\<close> case: the statements before the \<open>await\<close>, the statements after it, and
  the whole case when nothing runs in between.
\<close>

definition app_register_begin :: "nat \<Rightarrow> message \<Rightarrow> app \<Rightarrow> app" where
  "app_register_begin c data s =
     (let s1 = s\<lparr>sessions := (sessions s)[c := (sessions s ! c)\<lparr>connectedAgentId := agentId data\<rparr>]\<rparr>
      in s1\<lparr>activeConnections := Map_set (agentId data) c (activeConnections s1)\<rparr>)"

definition app_register_resume :: "nat \<Rightarrow> jsval \<Rightarrow> store_result \<Rightarrow> app \<Rightarrow> js_error option \<times> app" where
  "app_register_resume c a db s =
     (if db = Rejected then (Some StoreRejected, s)
      else (None, app_send_to c (RegisteredOnline a) s))"

definition app_case_register :: "nat \<Rightarrow> message \<Rightarrow> store_result \<Rightarrow> app \<Rightarrow> js_error option \<times> app" where
  "app_case_register c data db s =
     (let s1 = s\<lparr>sessions := (sessions s)[c := (sessions s ! c)\<lparr>connectedAgentId := agentId data\<rparr>]\<rparr>;
          s2 = s1\<lparr>activeConnections := Map_set (agentId data) c (activeConnections s1)\<rparr>
      in if db = Rejected then (Some StoreRejected, s2)
         else (None, app_send_to c (RegisteredOnline (agentId data)) s2))"

definition app_case_signal :: "nat \<Rightarrow> message \<Rightarrow> app \<Rightarrow> app" where
  "app_case_signal c data s =
     (case Map_get (activeConnections s) (targetAgentId data) of
        Some targetWs \<Rightarrow>
          (if app_ready s targetWs = OPEN
           then app_send_to targetWs (Signal (fromAgentId data) (signal data)) s
           else s)
      | None \<Rightarrow> s)"

definition app_case_ping :: "nat \<Rightarrow> app \<Rightarrow> app" where
  "app_case_ping c s = app_send_to c Pong s"

definition app_message_try :: "nat \<Rightarrow> frame \<Rightarrow> store_result \<Rightarrow> app \<Rightarrow> js_error option \<times> app" where
  "app_message_try c message db s =
     (case message of
        Unparsable \<Rightarrow> (Some SyntaxError, s)
      | ParsedNull \<Rightarrow> (Some TypeError, s)
      | Parsed data \<Rightarrow>
          (if type_field data = JStr ''register'' then app_case_register c data db s
           else if type_field data = JStr ''signal'' then (None, app_case_signal c data s)
           else if type_field data = JStr ''ping'' then (None, app_case_ping c s)
           else (None, s)))"

definition app_on_message :: "nat \<Rightarrow> frame \<Rightarrow> store_result \<Rightarrow> app \<Rightarrow> app" where
  "app_on_message c message db s = snd (app_message_try c message db s)"

text \<open>
  The message handler up to the point where it returns or awaits: the \<open>register\<close> case
  leaves its continuation behind, the other cases are over.
\<close>

definition app_message_begin :: "nat \<Rightarrow> frame \<Rightarrow> app \<Rightarrow> js_error option \<times> app" where
  "app_message_begin c message s =
     (case message of
        Unparsable \<Rightarrow> (Some SyntaxError, s)
      | ParsedNull \<Rightarrow> (Some TypeError, s)
      | Parsed data \<Rightarrow>
          (None,
           if type_field data = JStr ''register''
           then (app_register_begin c data s)
                  \<lparr>awaiting := awaiting s @ [AfterRegister c (agentId data)]\<rparr>
           else if type_field data = JStr ''signal'' then app_case_signal c data s
           else if type_field data = JStr ''ping'' then app_case_ping c s
           else s))"

text \<open>
  \<^verbatim>\<open>ws.on('close', ...)\<close> of the second file: when \<open>connectedAgentId\<close> is truthy, the store is
  updated and then the entry of that id is deleted, whatever socket it maps to. A rejected
  update leaves the handler before the deletion, uncaught. Again: the handler up to its
  \<open>await\<close>, the statements after it, and the whole handler when nothing runs in between.
\<close>

definition app_close_begin :: "nat \<Rightarrow> app \<Rightarrow> app" where
  "app_close_begin c s =
     (if truthy (connectedAgentId (sessions s ! c))
      then s\<lparr>awaiting := awaiting s @ [AfterClose c]\<rparr>
      else s)"

definition app_close_resume :: "nat \<Rightarrow> store_result \<Rightarrow> app \<Rightarrow> js_error option \<times> app" where
  "app_close_resume c db s =
     (if db = Rejected then (Some StoreRejected, s\<lparr>exited := True\<rparr>)
      else (None, s\<lparr>activeConnections :=
              Map_delete (connectedAgentId (sessions s ! c)) (activeConnections s)\<rparr>))"

definition app_on_close :: "nat \<Rightarrow> store_result \<Rightarrow> app \<Rightarrow> js_error option \<times> app" where
  "app_on_close c db s =
     (let agent = connectedAgentId (sessions s ! c)
      in if truthy agent
         then (if db = Rejected then (Some StoreRejected, s\<lparr>exited := True\<rparr>)
               else (None, s\<lparr>activeConnections := Map_delete agent (activeConnections s)\<rparr>))
         else (None, s))"

definition app_set_closed :: "nat \<Rightarrow> app \<Rightarrow> app" where
  "app_set_closed c s =
     s\<lparr>sessions := (sessions s)[c := (sessions s ! c)\<lparr>socket := (socket (sessions s ! c))\<lparr>readyState := CLOSED\<rparr>\<rparr>]\<rparr>"

text \<open>
  The events of the second server: the three of the transport, which run a handler up to its
  \<open>await\<close>, and the settling of the \<open>k\<close>-th update that is awaited, which runs the rest of
  its handler. Any number of events may lie between the two halves of a handler. Nothing runs
  once the process has exited.
\<close>

fun app_resume :: "continuation \<Rightarrow> store_result \<Rightarrow> app \<Rightarrow> app" where
  "app_resume (AfterRegister c a) db s = snd (app_register_resume c a db s)"
| "app_resume (AfterClose c) db s = snd (app_close_resume c db s)"

datatype app_event = AppConnection | AppMessage nat frame | AppClose nat | AppSettled nat store_result

fun app_event_step :: "app \<Rightarrow> app_event \<Rightarrow> app" where
  "app_event_step s AppConnection = app_on_connection s"
| "app_event_step s (AppMessage c message) =
     (if app_ready s c = OPEN then snd (app_message_begin c message s) else s)"
| "app_event_step s (AppClose c) =
     (if app_ready s c = CLOSED then s else app_close_begin c (app_set_closed c s))"
| "app_event_step s (AppSettled k db) =
     (if k < length (awaiting s)
      then app_resume (awaiting s ! k) db (s\<lparr>awaiting := take k (awaiting s) @ drop (Suc k) (awaiting s)\<rparr>)
      else s)"

definition app_step :: "app \<Rightarrow> app_event \<Rightarrow> app" where
  "app_step s ev = (if exited s then s else app_event_step s ev)"

definition app_run :: "app_event list \<Rightarrow> app" where
  "app_run evs =
     foldl app_step \<lparr>activeConnections = [], sessions = [], awaiting = [], exited = False\<rparr> evs"

section \<open>What the peers observe\<close>

text \<open>
  The messages each connection has been sent, by connection, and whether a signal to an id
  would be forwarded: the id is in the map and its socket is open.
\<close>

definition outboxes :: "server \<Rightarrow> out_msg list list" where
  "outboxes s = map (\<lambda>c. sent (ws c)) (sockets s)"

definition app_outboxes :: "app \<Rightarrow> out_msg list list" where
  "app_outboxes s = map (\<lambda>c. sent (socket c)) (sessions s)"

definition routable :: "server \<Rightarrow> jsval \<Rightarrow> bool" where
  "routable s k = (case Map_get (clients s) k of None \<Rightarrow> False | Some z \<Rightarrow> ready s z = OPEN)"

definition app_routable :: "app \<Rightarrow> jsval \<Rightarrow> bool" where
  "app_routable s k =
     (case Map_get (activeConnections s) k of None \<Rightarrow> False | Some z \<Rightarrow> app_ready s z = OPEN)"

text \<open>
  Two small runs, one of each server, used as concrete inputs below: two accepted connections,
  the second of which has registered as \<open>B\<close>.
\<close>

definition two_peers :: server where
  "two_peers = run [Connection 5, Connection 6, Message 1 (Parsed (register_msg (JStr ''B'')))]"

definition app_two_peers :: app where
  "app_two_peers =
     app_run [AppConnection, AppConnection, AppMessage 1 (Parsed (register_msg (JStr ''B''))),
       AppSettled 0 Resolved]"

text \<open>
  A third run of the standalone server: a third connection is accepted at the clock reading
  7 and pings.
\<close>

definition three_peers :: server where
  "three_peers =
     run [Connection 5, Connection 6, Message 1 (Parsed (register_msg (JStr ''B''))),
       Connection 7, Message 2 (Parsed (no_fields\<lparr>type_field := JStr ''ping''\<rparr>))]"

section \<open>Facts about the map operations\<close>

lemma Map_get_set: "Map_get (Map_set k v m) k' = (if k' = k then Some v else Map_get m k')"
  by (induction k v m rule: Map_set.induct) auto

lemma Map_get_delete_other: "k' \<noteq> k \<Longrightarrow> Map_get (Map_delete k m) k' = Map_get m k'"
  by (induction k m rule: Map_delete.induct) auto

lemma keys_Map_set:
  "map fst (Map_set k v m) = (if k \<in> set (map fst m) then map fst m else map fst m @ [k])"
  by (induction k v m rule: Map_set.induct) auto

lemma keys_Map_delete: "map fst (Map_delete k m) = remove1 k (map fst m)"
  by (induction k m rule: Map_delete.induct) auto

lemma distinct_Map_set: "distinct (map fst m) \<Longrightarrow> distinct (map fst (Map_set k v m))"
  by (simp only: keys_Map_set split: if_split) simp

lemma distinct_Map_delete: "distinct (map fst m) \<Longrightarrow> distinct (map fst (Map_delete k m))"
  by (simp only: keys_Map_delete distinct_remove1)



lemma Map_get_None_iff: "Map_get m k = None \<longleftrightarrow> k \<notin> set (map fst m)"
  by (induction m k rule: Map_get.induct) auto

lemma Map_get_Some_mem: "Map_get m k = Some v \<Longrightarrow> (k, v) \<in> set m"
  by (induction m k rule: Map_get.induct) (auto split: if_splits)

lemma distinct_mem_Map_get: "distinct (map fst m) \<Longrightarrow> (k, v) \<in> set m \<Longrightarrow> Map_get m k = Some v"
  by (induction m k rule: Map_get.induct) (auto simp: rev_image_eqI)







section \<open>What a handler changes\<close>

lemma clients_send_to [simp]: "clients (send_to c d s) = clients s"
  by (simp add: send_to_def)

lemma length_send_to [simp]: "length (sockets (send_to c d s)) = length (sockets s)"
  by (simp add: send_to_def)

lemma clientId_send_to [simp]: "clientId (sockets (send_to c d s) ! c') = clientId (sockets s ! c')"
  by (cases "c' = c") (simp_all add: send_to_def)

lemma activeConnections_app_send_to [simp]: "activeConnections (app_send_to c d s) = activeConnections s"
  by (simp add: app_send_to_def)





section \<open>Registration\<close>



section \<open>Routing\<close>

lemma outboxes_send_to:
  "ready s z = OPEN \<Longrightarrow> outboxes (send_to z d s) = (outboxes s)[z := outboxes s ! z @ [d]]"
  by (auto simp: outboxes_def send_to_def ready_def ws_send_def map_update split: if_splits)

lemma ready_send_to [simp]: "ready (send_to z d s) c = ready s c"
  by (auto simp: send_to_def ready_def ws_send_def nth_list_update)

lemma app_outboxes_send_to:
  "app_ready s z = OPEN \<Longrightarrow> app_outboxes (app_send_to z d s) = (app_outboxes s)[z := app_outboxes s ! z @ [d]]"
  by (auto simp: app_outboxes_def app_send_to_def app_ready_def ws_send_def map_update split: if_splits)

lemma app_ready_send_to [simp]: "app_ready (app_send_to z d s) c = app_ready s c"
  by (auto simp: app_send_to_def app_ready_def ws_send_def nth_list_update)

lemma signal_routed:
  "type_field m = JStr ''signal'' \<Longrightarrow> Map_get (clients s) (target m) = Some z \<Longrightarrow> ready s z = OPEN \<Longrightarrow>
   on_message c (Parsed m) s = send_to z (Signal (from_field m) (signal m)) s"
  by (simp add: on_message_def message_try_def case_signal_def)

lemma app_signal_routed:
  "type_field m = JStr ''signal'' \<Longrightarrow> Map_get (activeConnections t) (targetAgentId m) = Some y \<Longrightarrow>
   app_ready t y = OPEN \<Longrightarrow>
   app_on_message c (Parsed m) db t = app_send_to y (Signal (fromAgentId m) (signal m)) t"
  by (simp add: app_on_message_def app_message_try_def app_case_signal_def)

text \<open>
  C5. A \<open>signal\<close> message whose target is in the map with an open socket \<open>Z\<close>: handling it
  appends exactly one message to what \<open>Z\<close> is sent, carrying the message's payload and its
  origin field, and changes neither the map nor what any other connection is sent. Handling
  the same message again appends exactly one more. This holds in both servers; the first reads
  \<open>target\<close> and \<open>from\<close>, the second \<open>targetAgentId\<close> and \<open>fromAgentId\<close>.
\<close>

theorem signal_delivered_exactly_once:
  assumes ty: "type_field m = JStr ''signal''"
    and z: "Map_get (clients s) (target m) = Some z" "ready s z = OPEN"
    and y: "Map_get (activeConnections t) (targetAgentId m) = Some y" "app_ready t y = OPEN"
  shows "clients (on_message c (Parsed m) s) = clients s
       \<and> outboxes (on_message c (Parsed m) s) =
           (outboxes s)[z := outboxes s ! z @ [Signal (from_field m) (signal m)]]
       \<and> outboxes (on_message c (Parsed m) (on_message c (Parsed m) s)) =
           (outboxes s)[z := outboxes s ! z
              @ [Signal (from_field m) (signal m), Signal (from_field m) (signal m)]]
       \<and> activeConnections (app_on_message c (Parsed m) db t) = activeConnections t
       \<and> app_outboxes (app_on_message c (Parsed m) db t) =
           (app_outboxes t)[y := app_outboxes t ! y @ [Signal (fromAgentId m) (signal m)]]
       \<and> app_outboxes (app_on_message c (Parsed m) db (app_on_message c (Parsed m) db t)) =
           (app_outboxes t)[y := app_outboxes t ! y
              @ [Signal (fromAgentId m) (signal m), Signal (fromAgentId m) (signal m)]]"
proof -
  let ?d = "Signal (from_field m) (signal m)"
  let ?e = "Signal (fromAgentId m) (signal m)"
  have zl: "z < length (outboxes s)" using z(2) by (simp add: ready_def outboxes_def split: if_splits)
  have yl: "y < length (app_outboxes t)"
    using y(2) by (simp add: app_ready_def app_outboxes_def split: if_splits)
  have s1: "on_message c (Parsed m) s = send_to z ?d s" using ty z by (rule signal_routed)
  have s2: "on_message c (Parsed m) (send_to z ?d s) = send_to z ?d (send_to z ?d s)"
    using ty z by (intro signal_routed) simp_all
  have t1: "app_on_message c (Parsed m) db t = app_send_to y ?e t" using ty y by (rule app_signal_routed)
  have t2: "app_on_message c (Parsed m) db (app_send_to y ?e t) = app_send_to y ?e (app_send_to y ?e t)"
    using ty y by (intro app_signal_routed) simp_all
  have o1: "outboxes (send_to z ?d s) = (outboxes s)[z := outboxes s ! z @ [?d]]"
    using z(2) by (rule outboxes_send_to)
  have o2: "outboxes (send_to z ?d (send_to z ?d s)) = (outboxes s)[z := outboxes s ! z @ [?d, ?d]]"
    using z(2) zl by (simp add: outboxes_send_to)
  have p1: "app_outboxes (app_send_to y ?e t) = (app_outboxes t)[y := app_outboxes t ! y @ [?e]]"
    using y(2) by (rule app_outboxes_send_to)
  have p2: "app_outboxes (app_send_to y ?e (app_send_to y ?e t)) =
      (app_outboxes t)[y := app_outboxes t ! y @ [?e, ?e]]"
    using y(2) yl by (simp add: app_outboxes_send_to)
  show ?thesis unfolding s1 s2 t1 t2 o1 o2 p1 p2 by simp
qed

theorem signal_delivered_exactly_once_witness:
  "type_field (signal_msg (JStr ''B'') (JStr ''A'') (JStr ''P'')) = JStr ''signal''
   \<and> Map_get (clients two_peers) (target (signal_msg (JStr ''B'') (JStr ''A'') (JStr ''P''))) = Some 1
   \<and> ready two_peers 1 = OPEN
   \<and> Map_get (activeConnections app_two_peers)
        (targetAgentId (signal_msg (JStr ''B'') (JStr ''A'') (JStr ''P''))) = Some 1
   \<and> app_ready app_two_peers 1 = OPEN
   \<and> outboxes (on_message 0 (Parsed (signal_msg (JStr ''B'') (JStr ''A'') (JStr ''P''))) two_peers) =
        [[Connected ''5''], [Connected ''6'', Registered (JStr ''B''), Signal (JStr ''A'') (JStr ''P'')]]
   \<and> app_outboxes (app_on_message 0 (Parsed (signal_msg (JStr ''B'') (JStr ''A'') (JStr ''P'')))
        Resolved app_two_peers) =
        [[], [RegisteredOnline (JStr ''B''), Signal (JStr ''A'') (JStr ''P'')]]"
proof -
  let ?m = "signal_msg (JStr ''B'') (JStr ''A'') (JStr ''P'')"
  have h1: "type_field ?m = JStr ''signal''" by code_simp
  have h2: "Map_get (clients two_peers) (target ?m) = Some 1" by code_simp
  have h3: "ready two_peers 1 = OPEN" by code_simp
  have h4: "Map_get (activeConnections app_two_peers) (targetAgentId ?m) = Some 1" by code_simp
  have h5: "app_ready app_two_peers 1 = OPEN" by code_simp
  have o: "outboxes two_peers = [[Connected ''5''], [Connected ''6'', Registered (JStr ''B'')]]"
    by code_simp
  have p: "app_outboxes app_two_peers = [[], [RegisteredOnline (JStr ''B'')]]" by code_simp
  have f: "from_field ?m = JStr ''A''" "fromAgentId ?m = JStr ''A''" "signal ?m = JStr ''P''"
    by (simp_all add: signal_msg_def no_fields_def)
  show ?thesis
    using h1 h2 h3 h4 h5
      signal_delivered_exactly_once [OF h1 h2 h3 h4 h5, where c = 0 and db = Resolved]
    by (simp add: o p f)
qed

lemma signal_unroutable:
  "type_field m = JStr ''signal'' \<Longrightarrow> \<not> routable s (target m) \<Longrightarrow>
   on_message c (Parsed m) s = send_to c ErrorReply s"
  by (simp add: on_message_def message_try_def case_signal_def routable_def split: option.splits)

lemma app_signal_unroutable:
  "type_field m = JStr ''signal'' \<Longrightarrow> \<not> app_routable t (targetAgentId m) \<Longrightarrow>
   app_on_message c (Parsed m) db t = t"
  by (simp add: app_on_message_def app_message_try_def app_case_signal_def app_routable_def
      split: option.splits)

text \<open>
  In the standalone server a \<open>signal\<close> message whose target is not in the map, or is there
  with a socket that is not open, has the effect that C4 asks for: exactly one error reply is
  appended to what the sender is sent, and neither the map nor what any other connection is
  sent changes.
\<close>

lemma server_unroutable_signal_reply:
  assumes ty: "type_field m = JStr ''signal''"
    and u: "\<not> routable s (target m)"
    and op: "ready s c = OPEN"
  shows "clients (on_message c (Parsed m) s) = clients s
       \<and> outboxes (on_message c (Parsed m) s) = (outboxes s)[c := outboxes s ! c @ [ErrorReply]]"
proof -
  have s1: "on_message c (Parsed m) s = send_to c ErrorReply s" using ty u by (rule signal_unroutable)
  have o: "outboxes (send_to c ErrorReply s) = (outboxes s)[c := outboxes s ! c @ [ErrorReply]]"
    using op by (rule outboxes_send_to)
  show ?thesis unfolding s1 o by simp
qed

text \<open>
  C4. The second server does otherwise. Of two accepted connections the second has registered
  as \<open>B\<close>; the first, which is open, sends a signal to \<open>Z\<close>, an id that is not in the map.
  The \<open>else\<close> branch of the \<open>signal\<close> case only logs: the sender is sent no error reply, its
  outbox is as empty as before, and nothing is left awaiting that could send one later.
\<close>

theorem unroutable_signal_gets_no_reply:
  "\<not> app_routable app_two_peers (JStr ''Z'')
   \<and> app_ready app_two_peers 0 = OPEN
   \<and> app_outboxes (app_step app_two_peers
        (AppMessage 0 (Parsed (signal_msg (JStr ''Z'') (JStr ''A'') (JStr ''P''))))) =
       [[], [RegisteredOnline (JStr ''B'')]]
   \<and> awaiting (app_step app_two_peers
        (AppMessage 0 (Parsed (signal_msg (JStr ''Z'') (JStr ''A'') (JStr ''P''))))) = []"
proof -
  have a: "\<not> app_routable app_two_peers (JStr ''Z'')" by code_simp
  have b: "app_ready app_two_peers 0 = OPEN" by code_simp
  have c: "app_outboxes (app_step app_two_peers
        (AppMessage 0 (Parsed (signal_msg (JStr ''Z'') (JStr ''A'') (JStr ''P''))))) =
       [[], [RegisteredOnline (JStr ''B'')]]"
    by code_simp
  have d: "awaiting (app_step app_two_peers
        (AppMessage 0 (Parsed (signal_msg (JStr ''Z'') (JStr ''A'') (JStr ''P''))))) = []"
    by code_simp
  from a b c d show ?thesis by (intro conjI)
qed

section \<open>Malformed input\<close>

text \<open>
  C6. A frame that \<open>JSON.parse\<close> rejects, a frame that parses to \<^verbatim>\<open>null\<close>, and a message
  whose \<open>type\<close> is none of \<open>register\<close>, \<open>signal\<close> and \<open>ping\<close>: the handler of either server
  returns with the whole state as it was (the map, the closure variables, what every
  connection was sent, and the state of every socket). The errors of the first two are thrown
  inside the \<open>try\<close> block, before anything is changed, and caught.
\<close>

theorem malformed_frame_ignored:
  "on_message c Unparsable s = s \<and> on_message c ParsedNull s = s
   \<and> app_on_message c Unparsable db t = t \<and> app_on_message c ParsedNull db t = t
   \<and> message_try c Unparsable s = (Some SyntaxError, s)
   \<and> message_try c ParsedNull s = (Some TypeError, s)
   \<and> app_message_try c Unparsable db t = (Some SyntaxError, t)
   \<and> app_message_try c ParsedNull db t = (Some TypeError, t)
   \<and> (type_field m \<noteq> JStr ''register'' \<and> type_field m \<noteq> JStr ''signal''
        \<and> type_field m \<noteq> JStr ''ping''
      \<longrightarrow> on_message c (Parsed m) s = s \<and> app_on_message c (Parsed m) db t = t)"
  by (simp add: on_message_def message_try_def app_on_message_def app_message_try_def)

theorem malformed_frame_ignored_witness:
  "type_field (no_fields\<lparr>type_field := JStr ''bogus''\<rparr>) \<noteq> JStr ''register''
   \<and> type_field (no_fields\<lparr>type_field := JStr ''bogus''\<rparr>) \<noteq> JStr ''signal''
   \<and> type_field (no_fields\<lparr>type_field := JStr ''bogus''\<rparr>) \<noteq> JStr ''ping''
   \<and> on_message 0 (Parsed (no_fields\<lparr>type_field := JStr ''bogus''\<rparr>)) two_peers = two_peers
   \<and> app_on_message 0 (Parsed (no_fields\<lparr>type_field := JStr ''bogus''\<rparr>)) Resolved app_two_peers
       = app_two_peers
   \<and> on_message 0 Unparsable two_peers = two_peers"
  using malformed_frame_ignored [of 0 two_peers Resolved app_two_peers
      "no_fields\<lparr>type_field := JStr ''bogus''\<rparr>"]
  by simp

section \<open>Temporary ids of the standalone server\<close>

lemma on_connection_clients:
  "clients (on_connection now s) = Map_set (JStr (toString now)) (length (sockets s)) (clients s)"
  by (simp add: on_connection_def Let_def)

lemma on_connection_sockets:
  "sockets (on_connection now s) =
     sockets s @ [\<lparr>ws = \<lparr>readyState = OPEN, sent = [Connected (toString now)]\<rparr>, clientId = toString now\<rparr>]"
  by (simp add: on_connection_def Let_def send_to_def ws_send_def)

lemma on_connection_outboxes:
  "outboxes (on_connection now s) = outboxes s @ [[Connected (toString now)]]"
  by (simp add: outboxes_def on_connection_sockets)

lemma on_connection_ready:
  "ready (on_connection now s) c =
     (if c = length (sockets s) then OPEN else ready s c)"
  by (simp add: ready_def on_connection_sockets nth_append)

lemma length_outboxes [simp]: "length (outboxes s) = length (sockets s)"
  by (simp add: outboxes_def)

lemma outboxes_update_last:
  "(outboxes s @ [a])[length (sockets s) := b] = outboxes s @ [b]"
  "(outboxes s @ [a, a'])[Suc (length (sockets s)) := b] = outboxes s @ [a, b]"
  by (simp_all add: list_update_append outboxes_def)

lemma signal_to_bound_open:
  assumes "Map_get (clients s) k = Some z" and "ready s z = OPEN"
  shows "outboxes (on_message c (Parsed (m\<lparr>type_field := JStr ''signal'', target := k\<rparr>)) s) =
           (outboxes s)[z := outboxes s ! z @ [Signal (from_field m) (signal m)]]"
proof -
  let ?m = "m\<lparr>type_field := JStr ''signal'', target := k\<rparr>"
  have "on_message c (Parsed ?m) s = send_to z (Signal (from_field ?m) (signal ?m)) s"
    using assms by (intro signal_routed) simp_all
  then show ?thesis using assms(2) by (simp add: outboxes_send_to)
qed

text \<open>
  C9. In the standalone server an accepted connection gets the clock's reading, as a decimal
  string, for its \<open>clientId\<close>; it is sent one \<open>connected\<close> message with that id, and nothing
  else; and the id is put in the map at once, bound to the new socket, which is open. So a
  signal from any connection to that id is forwarded to the new connection, though it has
  registered nothing.
\<close>

theorem connection_bound_under_temporary_id:
  "let c = length (sockets s); cid = toString now; s' = on_connection now s in
     length (sockets s') = Suc c
   \<and> clientId (sockets s' ! c) = cid
   \<and> outboxes s' = outboxes s @ [[Connected cid]]
   \<and> ready s' c = OPEN
   \<and> Map_get (clients s') (JStr cid) = Some c
   \<and> routable s' (JStr cid)
   \<and> outboxes (on_message sender (Parsed (m\<lparr>type_field := JStr ''signal'', target := JStr cid\<rparr>)) s') =
        outboxes s @ [[Connected cid, Signal (from_field m) (signal m)]]"
proof -
  let ?c = "length (sockets s)" and ?cid = "toString now" and ?s = "on_connection now s"
  have g: "Map_get (clients ?s) (JStr ?cid) = Some ?c"
    by (simp add: on_connection_clients Map_get_set)
  have r: "ready ?s ?c = OPEN" by (simp add: on_connection_ready)
  have o: "outboxes ?s = outboxes s @ [[Connected ?cid]]" by (rule on_connection_outboxes)
  have d: "outboxes (on_message sender (Parsed (m\<lparr>type_field := JStr ''signal'', target := JStr ?cid\<rparr>)) ?s) =
        outboxes s @ [[Connected ?cid, Signal (from_field m) (signal m)]]"
    by (simp add: signal_to_bound_open [OF g r] o nth_append outboxes_update_last)
  show ?thesis
    unfolding Let_def using g r o d by (simp add: on_connection_sockets routable_def)
qed

theorem connection_bound_under_temporary_id_witness:
  "outboxes (on_connection 8 two_peers) =
     [[Connected ''5''], [Connected ''6'', Registered (JStr ''B'')], [Connected ''8'']]
   \<and> Map_get (clients (on_connection 8 two_peers)) (JStr ''8'') = Some 2
   \<and> outboxes (on_message 0 (Parsed (signal_msg (JStr ''8'') (JStr ''A'') (JStr ''P'')))
        (on_connection 8 two_peers)) =
     [[Connected ''5''], [Connected ''6'', Registered (JStr ''B'')],
      [Connected ''8'', Signal (JStr ''A'') (JStr ''P'')]]"
proof -
  have n: "toString 8 = ''8''" by code_simp
  have l: "length (sockets two_peers) = 2" by code_simp
  have o: "outboxes two_peers = [[Connected ''5''], [Connected ''6'', Registered (JStr ''B'')]]"
    by code_simp
  have m: "(signal_msg (JStr ''8'') (JStr ''A'') (JStr ''P''))
        \<lparr>type_field := JStr ''signal'', target := JStr ''8''\<rparr> =
      signal_msg (JStr ''8'') (JStr ''A'') (JStr ''P'')"
    "from_field (signal_msg (JStr ''8'') (JStr ''A'') (JStr ''P'')) = JStr ''A''"
    "signal (signal_msg (JStr ''8'') (JStr ''A'') (JStr ''P'')) = JStr ''P''"
    by (simp_all add: signal_msg_def no_fields_def)
  show ?thesis
    using connection_bound_under_temporary_id [of two_peers 8 0
        "signal_msg (JStr ''8'') (JStr ''A'') (JStr ''P'')"]
    by (simp add: Let_def n l o m)
qed

lemma keys_Map_set_bound: "Map_get m k = Some v \<Longrightarrow> map fst (Map_set k v' m) = map fst m"
  using Map_get_None_iff [of m k] by (simp add: keys_Map_set)

text \<open>
  C10, as the code has it. The temporary id is the clock's reading and nothing else, so two
  connections can get the same id. When the second is accepted while the first is open and the
  map still binds the id to it, the \<open>set\<close> overwrites that entry: the map has the keys it had,
  the id resolves to the second socket, and a signal to the id reaches the second connection
  only, while the first socket is still open.
\<close>

theorem same_temporary_id_overwrites_binding:
  assumes id: "clientId (sockets s ! x) = toString now"
    and bound: "Map_get (clients s) (JStr (toString now)) = Some x"
    and op: "ready s x = OPEN"
  shows "let y = length (sockets s); cid = toString now; s' = on_connection now s in
     x \<noteq> y
   \<and> clientId (sockets s' ! x) = cid \<and> clientId (sockets s' ! y) = cid
   \<and> map fst (clients s') = map fst (clients s)
   \<and> Map_get (clients s') (JStr cid) = Some y
   \<and> ready s' x = OPEN \<and> ready s' y = OPEN
   \<and> outboxes (on_message sender (Parsed (m\<lparr>type_field := JStr ''signal'', target := JStr cid\<rparr>)) s') =
        outboxes s @ [[Connected cid, Signal (from_field m) (signal m)]]"
proof -
  let ?y = "length (sockets s)" and ?cid = "toString now"
  let ?s = "on_connection now s"
  have x: "x < ?y" using op by (simp add: ready_def split: if_splits)
  have k: "map fst (clients ?s) = map fst (clients s)"
    using bound by (simp add: on_connection_clients keys_Map_set_bound)
  have g: "Map_get (clients ?s) (JStr ?cid) = Some ?y"
    by (simp add: on_connection_clients Map_get_set)
  have rx: "ready ?s x = OPEN" using x op by (simp add: on_connection_ready)
  have ry: "ready ?s ?y = OPEN" by (simp add: on_connection_ready)
  have c: "clientId (sockets ?s ! x) = ?cid" "clientId (sockets ?s ! ?y) = ?cid"
    using x id by (simp_all add: on_connection_sockets nth_append)
  have d: "outboxes (on_message sender (Parsed (m\<lparr>type_field := JStr ''signal'', target := JStr ?cid\<rparr>)) ?s) =
        outboxes s @ [[Connected ?cid, Signal (from_field m) (signal m)]]"
    by (simp add: signal_to_bound_open [OF g ry] on_connection_outboxes nth_append
        outboxes_update_last)
  show ?thesis unfolding Let_def using x k g rx ry c d by simp
qed

theorem same_temporary_id_overwrites_binding_witness:
  "clientId (sockets three_peers ! 2) = toString 7
   \<and> Map_get (clients three_peers) (JStr (toString 7)) = Some 2
   \<and> ready three_peers 2 = OPEN
   \<and> clients three_peers = [(JStr ''5'', 0), (JStr ''B'', 1), (JStr ''7'', 2)]
   \<and> map fst (clients (on_connection 7 three_peers)) = [JStr ''5'', JStr ''B'', JStr ''7'']
   \<and> Map_get (clients (on_connection 7 three_peers)) (JStr ''7'') = Some 3
   \<and> ready (on_connection 7 three_peers) 2 = OPEN
   \<and> outboxes (on_message 0 (Parsed (signal_msg (JStr ''7'') (JStr ''A'') (JStr ''P'')))
        (on_connection 7 three_peers)) =
     [[Connected ''5''], [Connected ''6'', Registered (JStr ''B'')], [Connected ''7'', Pong],
      [Connected ''7'', Signal (JStr ''A'') (JStr ''P'')]]"
proof -
  have n: "toString 7 = ''7''" by code_simp
  have h1: "clientId (sockets three_peers ! 2) = toString 7" by code_simp
  have h2: "Map_get (clients three_peers) (JStr (toString 7)) = Some 2" by code_simp
  have h3: "ready three_peers 2 = OPEN" by code_simp
  have l: "length (sockets three_peers) = 3" by code_simp
  have c: "clients three_peers = [(JStr ''5'', 0), (JStr ''B'', 1), (JStr ''7'', 2)]" by code_simp
  have o: "outboxes three_peers =
      [[Connected ''5''], [Connected ''6'', Registered (JStr ''B'')], [Connected ''7'', Pong]]"
    by code_simp
  have m: "(signal_msg (JStr ''7'') (JStr ''A'') (JStr ''P''))
        \<lparr>type_field := JStr ''signal'', target := JStr ''7''\<rparr> =
      signal_msg (JStr ''7'') (JStr ''A'') (JStr ''P'')"
    "from_field (signal_msg (JStr ''7'') (JStr ''A'') (JStr ''P'')) = JStr ''A''"
    "signal (signal_msg (JStr ''7'') (JStr ''A'') (JStr ''P'')) = JStr ''P''"
    by (simp_all add: signal_msg_def no_fields_def)
  show ?thesis
    using h1 h2 h3 same_temporary_id_overwrites_binding [OF h1 h2 h3, of 0
        "signal_msg (JStr ''7'') (JStr ''A'') (JStr ''P'')"]
    by (simp add: Let_def n l o m c)
qed

text \<open>
  Two connections with the same temporary id of which the first does not remain open: it has
  closed before the second is accepted. And two of which the first has no entry that the
  second could overwrite: it has registered as \<open>A\<close>, which took its temporary id out of the
  map, and the acceptance of the second leaves it bound under \<open>A\<close>.
\<close>

theorem same_temporary_id_counterexample:
  "clientId (sockets (run [Connection 7, Close 0, Connection 7]) ! 0) = ''7''
   \<and> clientId (sockets (run [Connection 7, Close 0, Connection 7]) ! 1) = ''7''
   \<and> ready (run [Connection 7, Close 0, Connection 7]) 0 = CLOSED
   \<and> clients (run [Connection 7, Message 0 (Parsed (register_msg (JStr ''A'')))]) = [(JStr ''A'', 0)]
   \<and> clients (run [Connection 7, Message 0 (Parsed (register_msg (JStr ''A''))), Connection 7]) =
       [(JStr ''A'', 0), (JStr ''7'', 1)]"
proof -
  have a: "clientId (sockets (run [Connection 7, Close 0, Connection 7]) ! 0) = ''7''" by code_simp
  have b: "clientId (sockets (run [Connection 7, Close 0, Connection 7]) ! 1) = ''7''" by code_simp
  have c: "ready (run [Connection 7, Close 0, Connection 7]) 0 = CLOSED" by code_simp
  have d: "clients (run [Connection 7, Message 0 (Parsed (register_msg (JStr ''A'')))]) = [(JStr ''A'', 0)]"
    by code_simp
  have e: "clients (run [Connection 7, Message 0 (Parsed (register_msg (JStr ''A''))), Connection 7]) =
       [(JStr ''A'', 0), (JStr ''7'', 1)]"
    by code_simp
  from a b c d e show ?thesis by (intro conjI)
qed

section \<open>Closing a connection\<close>

lemma clients_set_closed [simp]: "clients (set_closed c s) = clients s"
  by (simp add: set_closed_def)

lemma find_socket_None:
  "find (\<lambda>e. snd e = c) m = None \<Longrightarrow> (k, c) \<notin> set m"
  by (auto simp: find_None_iff)

lemma find_socket_Some:
  "find (\<lambda>e. snd e = c) m = Some e \<Longrightarrow> e \<in> set m \<and> snd e = c"
  by (auto simp: find_Some_iff)

text \<open>
  C8, as the code has it. A connection that has processed no \<open>register\<close> message: in the
  second server its \<open>connectedAgentId\<close> is still \<^verbatim>\<open>null\<close>, and its close handler changes
  nothing and throws nothing. In the standalone server such a connection holds no entry of the
  map but, possibly, the one under its temporary \<open>clientId\<close>; its close handler deletes that
  entry when the map still binds the id to this socket, and changes nothing else.
\<close>

theorem close_of_unregistered_connection:
  assumes "connectedAgentId (sessions t ! c) = JNull"
    and "\<forall>e \<in> set (clients s). snd e = c \<longrightarrow> fst e = JStr (clientId (sockets s ! c))"
  shows "app_on_close c db t = (None, t)
       \<and> sockets (on_close c s) = sockets s
       \<and> clients (on_close c s) =
           (if (JStr (clientId (sockets s ! c)), c) \<in> set (clients s)
            then Map_delete (JStr (clientId (sockets s ! c))) (clients s) else clients s)"
proof -
  let ?k = "JStr (clientId (sockets s ! c))"
  have a: "app_on_close c db t = (None, t)" using assms(1) by (simp add: app_on_close_def)
  have b: "sockets (on_close c s) = sockets s" by (simp add: on_close_def split: option.splits)
  have "clients (on_close c s) = (if (?k, c) \<in> set (clients s) then Map_delete ?k (clients s) else clients s)"
  proof (cases "find (\<lambda>e. snd e = c) (clients s)")
    case None
    then have "(?k, c) \<notin> set (clients s)" by (rule find_socket_None)
    with None show ?thesis by (simp add: on_close_def)
  next
    case (Some e)
    then have e: "e \<in> set (clients s)" "snd e = c" by (auto dest: find_socket_Some)
    with assms(2) have "fst e = ?k" by blast
    with e(2) have "e = (?k, c)" by (cases e) simp
    with e(1) Some show ?thesis by (simp add: on_close_def)
  qed
  with a b show ?thesis by simp
qed

theorem close_of_unregistered_connection_witness:
  "connectedAgentId (sessions app_two_peers ! 0) = JNull
   \<and> filter (\<lambda>e. snd e = 0) (clients two_peers) = [(JStr (clientId (sockets two_peers ! 0)), 0)]
   \<and> app_on_close 0 Resolved app_two_peers = (None, app_two_peers)
   \<and> clients two_peers = [(JStr ''5'', 0), (JStr ''B'', 1)]
   \<and> clients (on_close 0 two_peers) = [(JStr ''B'', 1)]"
proof -
  have c: "clients two_peers = [(JStr ''5'', 0), (JStr ''B'', 1)]" by code_simp
  have i: "clientId (sockets two_peers ! 0) = ''5''" by code_simp
  have h1: "connectedAgentId (sessions app_two_peers ! 0) = JNull" by code_simp
  have h2: "\<forall>e \<in> set (clients two_peers). snd e = 0 \<longrightarrow> fst e = JStr (clientId (sockets two_peers ! 0))"
    by (simp add: c i)
  show ?thesis
    using h1 h2 close_of_unregistered_connection [OF h1 h2, where db = Resolved]
    by (simp add: c i)
qed

text \<open>
  In the standalone server a connection that is accepted and closed, with no message in
  between, is put in the map when it is accepted and taken out of it when it closes: its close
  handler changes the map.
\<close>

theorem close_of_unregistered_connection_counterexample:
  "clients (run [Connection 5]) = [(JStr ''5'', 0)]
   \<and> clients (on_close 0 (set_closed 0 (run [Connection 5]))) = []
   \<and> clients (run [Connection 5, Close 0]) = []"
proof -
  have a: "clients (run [Connection 5]) = [(JStr ''5'', 0)]" by code_simp
  have b: "clients (on_close 0 (set_closed 0 (run [Connection 5]))) = []" by code_simp
  have c: "clients (run [Connection 5, Close 0]) = []" by code_simp
  from a b c show ?thesis by (intro conjI)
qed

text \<open>
  The close handler of the standalone server deletes an entry of its own socket, so an entry
  that is bound to another socket survives it.
\<close>

lemma on_close_keeps_other_binding:
  assumes d: "distinct (map fst (clients s))" and g: "Map_get (clients s) k = Some y" and xy: "y \<noteq> x"
  shows "Map_get (clients (on_close x s)) k = Some y"
proof (cases "find (\<lambda>e. snd e = x) (clients s)")
  case None
  with g show ?thesis by (simp add: on_close_def)
next
  case (Some e)
  then have e: "e \<in> set (clients s)" "snd e = x" by (auto dest: find_socket_Some)
  have "fst e \<noteq> k"
  proof
    assume f: "fst e = k"
    have "e = (k, x)" using f e(2) by (simp add: prod_eq_iff)
    with e(1) have "(k, x) \<in> set (clients s)" by simp
    with d have "Map_get (clients s) k = Some x" by (rule distinct_mem_Map_get)
    with g xy show False by simp
  qed
  then have "Map_get (Map_delete (fst e) (clients s)) k = Map_get (clients s) k"
    by (intro Map_get_delete_other) simp
  with Some g show ?thesis by (simp add: on_close_def)
qed

lemma register_msg_fields:
  "type_field (register_msg a) = JStr ''register''" "agentId (register_msg a) = a"
  by (simp_all add: register_msg_def no_fields_def)

lemma register_msg_clients:
  "clients (on_message c (Parsed (register_msg a)) s) =
     Map_set a c (Map_delete (JStr (clientId (sockets s ! c))) (clients s))"
  by (simp add: on_message_def message_try_def case_register_def Let_def register_msg_fields)

text \<open>
  In the standalone server the scenario of C1 ends as the specification asks: after \<open>X\<close> and
  then \<open>Y\<close> have registered the same id, the close of \<open>X\<close> leaves the id bound to \<open>Y\<close>.
\<close>

lemma server_stale_close_keeps_newer_binding:
  assumes d: "distinct (map fst (clients s))" and xy: "x \<noteq> y"
  shows "Map_get (clients (on_close x (set_closed x
           (on_message y (Parsed (register_msg a)) (on_message x (Parsed (register_msg a)) s))))) a
         = Some y"
proof -
  let ?s2 = "on_message y (Parsed (register_msg a)) (on_message x (Parsed (register_msg a)) s)"
  have d2: "distinct (map fst (clients (set_closed x ?s2)))"
    using d by (simp add: register_msg_clients distinct_Map_set distinct_Map_delete)
  have g2: "Map_get (clients (set_closed x ?s2)) a = Some y"
    by (simp add: register_msg_clients Map_get_set)
  from d2 g2 show ?thesis using xy by (intro on_close_keeps_other_binding) simp_all
qed

section \<open>The two halves of an awaiting handler\<close>

text \<open>
  The handlers of the second server as wholes are their two halves, one run after the other:
  when the update settles before any other event, the two events have the effect of the whole
  handler.
\<close>

lemma app_case_register_halves:
  "app_case_register c data db s =
     app_register_resume c (agentId data) db (app_register_begin c data s)"
  by (simp add: app_case_register_def app_register_resume_def app_register_begin_def Let_def)

lemma app_on_close_halves:
  "app_on_close c db s =
     (if truthy (connectedAgentId (sessions s ! c)) then app_close_resume c db s else (None, s))"
  by (simp add: app_on_close_def app_close_resume_def Let_def)

lemma app_register_begin_frame [simp]:
  "awaiting (app_register_begin c data s) = awaiting s"
  "exited (app_register_begin c data s) = exited s"
  by (simp_all add: app_register_begin_def Let_def)

lemma app_step_register_settled:
  assumes "\<not> exited s" and "app_ready s c = OPEN" and "type_field data = JStr ''register''"
  shows "app_step (app_step s (AppMessage c (Parsed data))) (AppSettled (length (awaiting s)) db) =
           app_on_message c (Parsed data) db s"
proof -
  let ?b = "app_register_begin c data s"
  have 1: "app_step s (AppMessage c (Parsed data)) =
      ?b\<lparr>awaiting := awaiting s @ [AfterRegister c (agentId data)]\<rparr>"
    using assms by (simp add: app_step_def app_message_begin_def)
  have 2: "(?b\<lparr>awaiting := awaiting s @ [AfterRegister c (agentId data)]\<rparr>)\<lparr>awaiting := awaiting s\<rparr> = ?b"
    by (simp add: app_register_begin_def Let_def)
  have 3: "app_on_message c (Parsed data) db s = snd (app_register_resume c (agentId data) db ?b)"
    using assms(3) by (simp add: app_on_message_def app_message_try_def app_case_register_halves)
  show ?thesis unfolding 1 3 using assms(1) by (simp add: app_step_def 2)
qed

lemma app_step_message_no_await:
  assumes "\<not> exited s" and "app_ready s c = OPEN"
    and "\<forall>data. message = Parsed data \<longrightarrow> type_field data \<noteq> JStr ''register''"
  shows "app_step s (AppMessage c message) = app_on_message c message db s"
  using assms
  by (cases message)
    (simp_all add: app_step_def app_message_begin_def app_on_message_def app_message_try_def)

lemma app_step_close_settled:
  assumes "\<not> exited s" and "app_ready s c \<noteq> CLOSED" and "truthy (connectedAgentId (sessions s ! c))"
  shows "app_step (app_step s (AppClose c)) (AppSettled (length (awaiting s)) db) =
           snd (app_on_close c db (app_set_closed c s))"
proof -
  let ?s = "app_set_closed c s"
  have c: "c < length (sessions s)" using assms(2) by (simp add: app_ready_def split: if_splits)
  have t: "truthy (connectedAgentId (sessions ?s ! c))"
    using assms(3) c by (simp add: app_set_closed_def)
  have f: "awaiting ?s = awaiting s" "exited ?s = exited s" by (simp_all add: app_set_closed_def)
  have 1: "app_step s (AppClose c) = ?s\<lparr>awaiting := awaiting s @ [AfterClose c]\<rparr>"
    using assms(1,2) t by (simp add: app_step_def app_close_begin_def f)
  have 2: "(?s\<lparr>awaiting := awaiting s @ [AfterClose c]\<rparr>)\<lparr>awaiting := awaiting s\<rparr> = ?s"
    by (simp add: app_set_closed_def)
  have 3: "app_on_close c db ?s = app_close_resume c db ?s"
    using t by (simp add: app_on_close_halves)
  show ?thesis unfolding 1 3 using assms(1) by (simp add: app_step_def f 2)
qed

lemma app_step_close_no_await:
  assumes "\<not> exited s" and "app_ready s c \<noteq> CLOSED" and "\<not> truthy (connectedAgentId (sessions s ! c))"
  shows "app_step s (AppClose c) = snd (app_on_close c db (app_set_closed c s))"
proof -
  have c: "c < length (sessions s)" using assms(2) by (simp add: app_ready_def split: if_splits)
  have "\<not> truthy (connectedAgentId (sessions (app_set_closed c s) ! c))"
    using assms(3) c by (simp add: app_set_closed_def)
  then show ?thesis using assms(1,2) by (simp add: app_step_def app_close_begin_def app_on_close_halves)
qed

text \<open>
  A rejected update in the close handler ends the process: no later event changes anything.
\<close>

lemma app_step_exited: "exited s \<Longrightarrow> app_step s ev = s"
  by (simp add: app_step_def)

lemma rejected_close_exits:
  "exited (app_run [AppConnection, AppMessage 0 (Parsed (register_msg (JStr ''A''))),
      AppSettled 0 Resolved, AppClose 0, AppSettled 0 Rejected])"
  by code_simp

section \<open>The keys of the map stay distinct\<close>

lemma on_message_distinct_keys:
  "distinct (map fst (clients s)) \<Longrightarrow> distinct (map fst (clients (on_message c data s)))"
  by (simp add: on_message_def message_try_def case_register_def case_signal_def case_ping_def
      Let_def distinct_Map_set distinct_Map_delete split: frame.splits option.splits)

lemma on_close_distinct_keys:
  "distinct (map fst (clients s)) \<Longrightarrow> distinct (map fst (clients (on_close c s)))"
  by (simp add: on_close_def distinct_Map_delete split: option.splits)

lemma step_distinct_keys:
  "distinct (map fst (clients s)) \<Longrightarrow> distinct (map fst (clients (step s e)))"
  by (cases e)
    (simp_all add: on_connection_clients distinct_Map_set on_message_distinct_keys
      on_close_distinct_keys)

lemma foldl_step_distinct_keys:
  "distinct (map fst (clients s)) \<Longrightarrow> distinct (map fst (clients (foldl step s evs)))"
  by (induction evs arbitrary: s) (simp_all add: step_distinct_keys)

text \<open>
  Whatever the transport does, the map of the standalone server never holds two entries for
  one id; neither does the map of the second server.
\<close>

lemma run_distinct_keys: "distinct (map fst (clients (run evs)))"
  by (simp add: run_def foldl_step_distinct_keys)

lemma app_message_begin_distinct_keys:
  "distinct (map fst (activeConnections s)) \<Longrightarrow>
   distinct (map fst (activeConnections (snd (app_message_begin c message s))))"
  by (simp add: app_message_begin_def app_register_begin_def app_case_signal_def
      app_case_ping_def Let_def distinct_Map_set split: frame.splits option.splits)

lemma app_resume_distinct_keys:
  "distinct (map fst (activeConnections s)) \<Longrightarrow>
   distinct (map fst (activeConnections (app_resume k db s)))"
  by (cases k)
    (simp_all add: app_register_resume_def app_close_resume_def distinct_Map_delete)

lemma app_event_step_distinct_keys:
  "distinct (map fst (activeConnections s)) \<Longrightarrow>
   distinct (map fst (activeConnections (app_event_step s e)))"
  by (cases e)
    (simp_all add: app_on_connection_def app_message_begin_distinct_keys
      app_resume_distinct_keys app_close_begin_def app_set_closed_def)

lemma app_step_distinct_keys:
  "distinct (map fst (activeConnections s)) \<Longrightarrow> distinct (map fst (activeConnections (app_step s e)))"
  by (simp add: app_step_def app_event_step_distinct_keys)

lemma foldl_app_step_distinct_keys:
  "distinct (map fst (activeConnections s)) \<Longrightarrow>
   distinct (map fst (activeConnections (foldl app_step s evs)))"
  by (induction evs arbitrary: s) (simp_all add: app_step_distinct_keys)

lemma app_run_distinct_keys: "distinct (map fst (activeConnections (app_run evs)))"
  by (simp add: app_run_def foldl_app_step_distinct_keys)

section \<open>The map holds sockets of accepted connections only\<close>

lemma set_Map_set: "set (Map_set k v m) \<subseteq> insert (k, v) (set m)"
  by (induction k v m rule: Map_set.induct) auto

lemma set_Map_delete: "set (Map_delete k m) \<subseteq> set m"
  by (induction k m rule: Map_delete.induct) auto

lemma handles_Map_set:
  "\<forall>e \<in> set m. snd e < n \<Longrightarrow> v < n \<Longrightarrow> \<forall>e \<in> set (Map_set k v m). snd e < n"
  using set_Map_set [of k v m] by auto

lemma handles_Map_delete:
  "\<forall>e \<in> set m. snd e < n \<Longrightarrow> \<forall>e \<in> set (Map_delete k m). snd e < n"
  using set_Map_delete [of k m] by auto

lemma length_on_message [simp]: "length (sockets (on_message c data s)) = length (sockets s)"
  by (simp add: on_message_def message_try_def case_register_def case_signal_def case_ping_def
      Let_def split: frame.splits option.splits)

lemma on_message_clients_cases:
  "clients (on_message c data s) = clients s
   \<or> (\<exists>a. clients (on_message c data s) =
         Map_set a c (Map_delete (JStr (clientId (sockets s ! c))) (clients s)))"
  by (auto simp: on_message_def message_try_def case_register_def case_signal_def case_ping_def
      Let_def split: frame.splits option.splits)

lemma step_handles_accepted:
  assumes "\<forall>e \<in> set (clients s). snd e < length (sockets s)"
  shows "\<forall>e \<in> set (clients (step s ev)). snd e < length (sockets (step s ev))"
proof (cases ev)
  case (Connection now)
  have "\<forall>e \<in> set (clients s). snd e < Suc (length (sockets s))" using assms by auto
  then have "\<forall>e \<in> set (Map_set (JStr (toString now)) (length (sockets s)) (clients s)).
      snd e < Suc (length (sockets s))"
    by (rule handles_Map_set) simp
  with Connection show ?thesis by (simp add: on_connection_clients on_connection_sockets)
next
  case (Message c data)
  show ?thesis
  proof (cases "ready s c = OPEN")
    case True
    then have c: "c < length (sockets s)" by (simp add: ready_def split: if_splits)
    from on_message_clients_cases [of c data s]
    have "\<forall>e \<in> set (clients (on_message c data s)). snd e < length (sockets s)"
    proof
      assume "clients (on_message c data s) = clients s"
      with assms show ?thesis by simp
    next
      assume "\<exists>a. clients (on_message c data s) =
         Map_set a c (Map_delete (JStr (clientId (sockets s ! c))) (clients s))"
      then obtain a where a: "clients (on_message c data s) =
         Map_set a c (Map_delete (JStr (clientId (sockets s ! c))) (clients s))" ..
      have "\<forall>e \<in> set (Map_delete (JStr (clientId (sockets s ! c))) (clients s)).
          snd e < length (sockets s)"
        using assms by (rule handles_Map_delete)
      then show ?thesis unfolding a using c by (rule handles_Map_set)
    qed
    with Message True show ?thesis by simp
  next
    case False
    with Message assms show ?thesis by simp
  qed
next
  case (Close c)
  have "\<forall>e \<in> set (clients (on_close c (set_closed c s))). snd e < length (sockets s)"
    using assms handles_Map_delete [of "clients s" "length (sockets s)"]
    by (simp add: on_close_def split: option.splits)
  moreover have "length (sockets (on_close c (set_closed c s))) = length (sockets s)"
    by (simp add: on_close_def set_closed_def split: option.splits)
  ultimately show ?thesis using Close assms by simp
qed

lemma foldl_step_handles_accepted:
  "\<forall>e \<in> set (clients s). snd e < length (sockets s) \<Longrightarrow>
   \<forall>e \<in> set (clients (foldl step s evs)). snd e < length (sockets (foldl step s evs))"
proof (induction evs arbitrary: s)
  case Nil
  then show ?case by simp
next
  case (Cons ev evs)
  from Cons.prems have "\<forall>e \<in> set (clients (step s ev)). snd e < length (sockets (step s ev))"
    by (rule step_handles_accepted)
  then show ?case using Cons.IH [of "step s ev"] by simp
qed

lemma run_handles_accepted:
  "\<forall>e \<in> set (clients (run evs)). snd e < length (sockets (run evs))"
  unfolding run_def by (rule foldl_step_handles_accepted) simp

section \<open>Entries that outlive their registration\<close>

text \<open>
  C1. In the second server the scenario ends otherwise. Connections \<open>X\<close> (0) and \<open>Y\<close> (1)
  register the id \<open>A\<close> one after the other, and the map resolves \<open>A\<close> to \<open>Y\<close>; then \<open>X\<close>
  closes, and its close handler deletes the entry of \<open>A\<close> without looking at the socket it
  maps to: \<open>A\<close> resolves to nothing, while \<open>Y\<close> is still open.
\<close>

theorem stale_close_evicts_newer_binding:
  "Map_get (activeConnections (app_run
      [AppConnection, AppConnection,
       AppMessage 0 (Parsed (register_msg (JStr ''A''))), AppSettled 0 Resolved,
       AppMessage 1 (Parsed (register_msg (JStr ''A''))), AppSettled 0 Resolved])) (JStr ''A'') = Some 1
   \<and> Map_get (activeConnections (app_run
      [AppConnection, AppConnection,
       AppMessage 0 (Parsed (register_msg (JStr ''A''))), AppSettled 0 Resolved,
       AppMessage 1 (Parsed (register_msg (JStr ''A''))), AppSettled 0 Resolved,
       AppClose 0, AppSettled 0 Resolved])) (JStr ''A'') = None
   \<and> app_ready (app_run
      [AppConnection, AppConnection,
       AppMessage 0 (Parsed (register_msg (JStr ''A''))), AppSettled 0 Resolved,
       AppMessage 1 (Parsed (register_msg (JStr ''A''))), AppSettled 0 Resolved,
       AppClose 0, AppSettled 0 Resolved]) 1 = OPEN"
proof -
  have a: "Map_get (activeConnections (app_run
      [AppConnection, AppConnection,
       AppMessage 0 (Parsed (register_msg (JStr ''A''))), AppSettled 0 Resolved,
       AppMessage 1 (Parsed (register_msg (JStr ''A''))), AppSettled 0 Resolved])) (JStr ''A'') = Some 1"
    by code_simp
  have b: "Map_get (activeConnections (app_run
      [AppConnection, AppConnection,
       AppMessage 0 (Parsed (register_msg (JStr ''A''))), AppSettled 0 Resolved,
       AppMessage 1 (Parsed (register_msg (JStr ''A''))), AppSettled 0 Resolved,
       AppClose 0, AppSettled 0 Resolved])) (JStr ''A'') = None"
    by code_simp
  have c: "app_ready (app_run
      [AppConnection, AppConnection,
       AppMessage 0 (Parsed (register_msg (JStr ''A''))), AppSettled 0 Resolved,
       AppMessage 1 (Parsed (register_msg (JStr ''A''))), AppSettled 0 Resolved,
       AppClose 0, AppSettled 0 Resolved]) 1 = OPEN"
    by code_simp
  from a b c show ?thesis by (intro conjI)
qed

text \<open>
  The same happens when \<open>Y\<close> registers while the close handler of \<open>X\<close> is still waiting
  for the profile store: the deletion that follows the wait takes the entry of \<open>Y\<close>.
\<close>

lemma stale_close_evicts_binding_made_while_awaiting:
  "Map_get (activeConnections (app_run
      [AppConnection, AppConnection,
       AppMessage 0 (Parsed (register_msg (JStr ''A''))), AppSettled 0 Resolved,
       AppClose 0,
       AppMessage 1 (Parsed (register_msg (JStr ''A''))),
       AppSettled 0 Resolved])) (JStr ''A'') = None"
  by code_simp

text \<open>
  C3. A connection of the standalone server that has registered \<open>A\<close> and then registers
  \<open>B\<close>: the \<open>register\<close> case deletes \<open>oldId\<close>, which is always the temporary \<open>clientId\<close>
  and never the id registered before, so the entry of \<open>A\<close> stays, bound to the same socket.
  The second server deletes nothing when it registers, and the entry of \<open>A\<close> stays as well.
\<close>

theorem reregistration_keeps_old_entry:
  "clients (run
      [Connection 5,
       Message 0 (Parsed (register_msg (JStr ''A''))),
       Message 0 (Parsed (register_msg (JStr ''B'')))]) = [(JStr ''A'', 0), (JStr ''B'', 0)]
   \<and> activeConnections (app_run
      [AppConnection,
       AppMessage 0 (Parsed (register_msg (JStr ''A''))), AppSettled 0 Resolved,
       AppMessage 0 (Parsed (register_msg (JStr ''B''))), AppSettled 0 Resolved]) = [(JStr ''A'', 0), (JStr ''B'', 0)]"
proof -
  have a: "clients (run
      [Connection 5,
       Message 0 (Parsed (register_msg (JStr ''A''))),
       Message 0 (Parsed (register_msg (JStr ''B'')))]) = [(JStr ''A'', 0), (JStr ''B'', 0)]"
    by code_simp
  have b: "activeConnections (app_run
      [AppConnection,
       AppMessage 0 (Parsed (register_msg (JStr ''A''))), AppSettled 0 Resolved,
       AppMessage 0 (Parsed (register_msg (JStr ''B''))), AppSettled 0 Resolved]) = [(JStr ''A'', 0), (JStr ''B'', 0)]"
    by code_simp
  from a b show ?thesis by (intro conjI)
qed

text \<open>
  C2. The keys of the map are distinct after every run (\<open>run_distinct_keys\<close>), but an entry
  can outlive its socket. When the connection above closes, the scan of the close handler
  deletes the first entry of its socket, \<open>A\<close>, and stops: the entry of \<open>B\<close> stays in the
  map, bound to a socket that is closed.
\<close>

theorem closed_socket_stays_in_registry:
  "clients (run
      [Connection 5,
       Message 0 (Parsed (register_msg (JStr ''A''))),
       Message 0 (Parsed (register_msg (JStr ''B''))),
       Close 0]) = [(JStr ''B'', 0)]
   \<and> ready (run
      [Connection 5,
       Message 0 (Parsed (register_msg (JStr ''A''))),
       Message 0 (Parsed (register_msg (JStr ''B''))),
       Close 0]) 0 = CLOSED"
proof -
  have a: "clients (run
      [Connection 5,
       Message 0 (Parsed (register_msg (JStr ''A''))),
       Message 0 (Parsed (register_msg (JStr ''B''))),
       Close 0]) = [(JStr ''B'', 0)]"
    by code_simp
  have b: "ready (run
      [Connection 5,
       Message 0 (Parsed (register_msg (JStr ''A''))),
       Message 0 (Parsed (register_msg (JStr ''B''))),
       Close 0]) 0 = CLOSED"
    by code_simp
  from a b show ?thesis by (intro conjI)
qed

end
